theory Spec2Isabelle
  imports Complex_Main "HOL-Library.AList"
begin

section \<open>Values shared by the modules\<close>

text \<open>
  JavaScript numbers that hold playback positions and volumes are modelled as exact reals;
  wall-clock readings (\<^verbatim>\<open>Date.now()\<close>, milliseconds) and the timestamps stored in the
  room record are integers. Every \<^verbatim>\<open>Date.now()\<close> of the source is a parameter of the
  function that reads it. A value that is \<^verbatim>\<open>null\<close> in the source is \<open>None\<close>.

  The only exception the modelled code can raise is the \<^verbatim>\<open>TypeError\<close> of a method call or
  a property access on a \<^verbatim>\<open>null\<close> player object.
\<close>

datatype js_error = TypeError

datatype video_type = YouTube | Vimeo | MP4

section \<open>video.js: the VideoPlayer adapter\<close>

text \<open>
  The three playback backends (the YouTube iframe player, the Vimeo player and the HTML5
  video element) are not part of the repository. They are modelled as one ideal device
  that obeys each command at once: a seek sets its position, play and pause set its
  playing state, and the event the backend fires for play or pause reaches the adapter's
  own handler (which sets \<^verbatim>\<open>this.playing\<close>) before the next call. Every command that
  reaches the device is recorded as a \<open>backend_call\<close>.
\<close>

record backend =
  b_currentTime :: real
  b_playing :: bool
  b_muted :: bool
  b_volume :: real

datatype backend_call =
    PlayCall
  | PauseCall
  | SeekCall real
  | VolumeCall real
  | MutedCall bool

text \<open>
  The fields of \<^verbatim>\<open>VideoPlayer\<close>, each with the prefix \<open>vp_\<close>. \<open>vp_type = None\<close> stands for
  \<^verbatim>\<open>this.type\<close> being \<^verbatim>\<open>null\<close> or a string none of the \<^verbatim>\<open>switch\<close> statements has a
  case for.
\<close>

record VideoPlayer =
  vp_player :: "backend option"
  vp_type :: "video_type option"
  vp_isReady :: bool
  vp_currentTime :: real
  vp_duration :: real
  vp_playing :: bool
  vp_muted :: bool
  vp_volume :: real

text \<open>The state the constructor builds.\<close>

definition newVideoPlayer :: VideoPlayer where
  "newVideoPlayer =
     \<lparr>vp_player = None, vp_type = None, vp_isReady = False, vp_currentTime = 0,
      vp_duration = 0, vp_playing = False, vp_muted = False, vp_volume = 1 / 2\<rparr>"

type_synonym 'a result = "js_error + 'a"

type_synonym vp_step = "(VideoPlayer \<times> backend_call list) result"

definition play :: "VideoPlayer \<Rightarrow> vp_step" where
  "play vp =
     (if \<not> vp_isReady vp then Inr (vp, [])
      else case vp_type vp of
        None \<Rightarrow> Inr (vp, [])
      | Some _ \<Rightarrow>
          (case vp_player vp of
             None \<Rightarrow> Inl TypeError
           | Some b \<Rightarrow>
               Inr (vp\<lparr>vp_player := Some (b\<lparr>b_playing := True\<rparr>), vp_playing := True\<rparr>,
                    [PlayCall])))"

definition pause :: "VideoPlayer \<Rightarrow> vp_step" where
  "pause vp =
     (if \<not> vp_isReady vp then Inr (vp, [])
      else case vp_type vp of
        None \<Rightarrow> Inr (vp, [])
      | Some _ \<Rightarrow>
          (case vp_player vp of
             None \<Rightarrow> Inl TypeError
           | Some b \<Rightarrow>
               Inr (vp\<lparr>vp_player := Some (b\<lparr>b_playing := False\<rparr>), vp_playing := False\<rparr>,
                    [PauseCall])))"

text \<open>
  \<^verbatim>\<open>seek\<close> stores \<^verbatim>\<open>this.currentTime = time\<close> after the \<^verbatim>\<open>switch\<close>, so also when no case
  of the \<^verbatim>\<open>switch\<close> applies.
\<close>

definition seek :: "real \<Rightarrow> VideoPlayer \<Rightarrow> vp_step" where
  "seek t vp =
     (if \<not> vp_isReady vp then Inr (vp, [])
      else case vp_type vp of
        None \<Rightarrow> Inr (vp\<lparr>vp_currentTime := t\<rparr>, [])
      | Some _ \<Rightarrow>
          (case vp_player vp of
             None \<Rightarrow> Inl TypeError
           | Some b \<Rightarrow>
               Inr (vp\<lparr>vp_player := Some (b\<lparr>b_currentTime := t\<rparr>), vp_currentTime := t\<rparr>,
                    [SeekCall t])))"

text \<open>
  For Vimeo the adapter answers from its own \<^verbatim>\<open>this.currentTime\<close>; for the other two it
  asks the backend (\<^verbatim>\<open>x || 0\<close> of a number \<open>x\<close> is \<open>x\<close>).
\<close>

definition getCurrentTime :: "VideoPlayer \<Rightarrow> real result" where
  "getCurrentTime vp =
     (if \<not> vp_isReady vp then Inr 0
      else case vp_type vp of
        Some YouTube \<Rightarrow>
          (case vp_player vp of None \<Rightarrow> Inl TypeError | Some b \<Rightarrow> Inr (b_currentTime b))
      | Some Vimeo \<Rightarrow> Inr (vp_currentTime vp)
      | Some MP4 \<Rightarrow>
          (case vp_player vp of None \<Rightarrow> Inl TypeError | Some b \<Rightarrow> Inr (b_currentTime b))
      | None \<Rightarrow> Inr 0)"

definition getDuration :: "VideoPlayer \<Rightarrow> real" where
  "getDuration vp = vp_duration vp"

definition isPlaying :: "VideoPlayer \<Rightarrow> bool result" where
  "isPlaying vp =
     (if \<not> vp_isReady vp then Inr False
      else case vp_type vp of
        Some YouTube \<Rightarrow>
          (case vp_player vp of None \<Rightarrow> Inl TypeError | Some b \<Rightarrow> Inr (b_playing b))
      | Some Vimeo \<Rightarrow> Inr (vp_playing vp)
      | Some MP4 \<Rightarrow> Inr (vp_playing vp)
      | None \<Rightarrow> Inr False)"

text \<open>
  \<^verbatim>\<open>setVolume\<close> clamps and stores the volume first and only then looks at readiness.
  The YouTube player takes a percentage.
\<close>

definition setVolume :: "real \<Rightarrow> VideoPlayer \<Rightarrow> vp_step" where
  "setVolume v vp =
     (let vp1 = vp\<lparr>vp_volume := max 0 (min 1 v)\<rparr> in
      if \<not> vp_isReady vp1 then Inr (vp1, [])
      else case vp_type vp1 of
        None \<Rightarrow> Inr (vp1, [])
      | Some ty \<Rightarrow>
          (case vp_player vp1 of
             None \<Rightarrow> Inl TypeError
           | Some b \<Rightarrow>
               (let w = (case ty of YouTube \<Rightarrow> vp_volume vp1 * 100
                                   | Vimeo \<Rightarrow> vp_volume vp1
                                   | MP4 \<Rightarrow> vp_volume vp1)
                in Inr (vp1\<lparr>vp_player := Some (b\<lparr>b_volume := w\<rparr>)\<rparr>, [VolumeCall w]))))"

definition toggleMute :: "VideoPlayer \<Rightarrow> vp_step" where
  "toggleMute vp =
     (if \<not> vp_isReady vp then Inr (vp, [])
      else case vp_type vp of
        None \<Rightarrow> Inr (vp, [])
      | Some ty \<Rightarrow>
          (case vp_player vp of
             None \<Rightarrow> Inl TypeError
           | Some b \<Rightarrow>
               (case ty of
                  YouTube \<Rightarrow>
                    (if b_muted b
                     then Inr (vp\<lparr>vp_player := Some (b\<lparr>b_muted := False\<rparr>), vp_muted := False\<rparr>,
                               [MutedCall False])
                     else Inr (vp\<lparr>vp_player := Some (b\<lparr>b_muted := True\<rparr>), vp_muted := True\<rparr>,
                               [MutedCall True]))
                | Vimeo \<Rightarrow>
                    (if b_volume b > 0
                     then Inr (vp\<lparr>vp_player := Some (b\<lparr>b_volume := 0\<rparr>),
                                  vp_volume := b_volume b, vp_muted := True\<rparr>,
                               [VolumeCall 0])
                     else Inr (vp\<lparr>vp_player := Some (b\<lparr>b_volume := vp_volume vp\<rparr>),
                                  vp_muted := False\<rparr>,
                               [VolumeCall (vp_volume vp)]))
                | MP4 \<Rightarrow>
                    Inr (vp\<lparr>vp_player := Some (b\<lparr>b_muted := \<not> b_muted b\<rparr>),
                            vp_muted := \<not> b_muted b\<rparr>,
                         [MutedCall (\<not> b_muted b)]))))"

definition isMuted :: "VideoPlayer \<Rightarrow> bool result" where
  "isMuted vp =
     (if \<not> vp_isReady vp then Inr False
      else case vp_type vp of
        Some YouTube \<Rightarrow>
          (case vp_player vp of None \<Rightarrow> Inl TypeError | Some b \<Rightarrow> Inr (b_muted b))
      | Some Vimeo \<Rightarrow> Inr (vp_muted vp)
      | Some MP4 \<Rightarrow> Inr (vp_muted vp)
      | None \<Rightarrow> Inr False)"

definition isReady :: "VideoPlayer \<Rightarrow> bool" where
  "isReady vp = vp_isReady vp"

section \<open>room.js: the RoomManager\<close>

text \<open>
  The room record, fields prefixed \<open>rs_\<close>. An empty \<open>rs_url\<close> is the falsy url of the
  source (empty or absent); \<open>rs_hostId\<close> is \<open>None\<close> when the stored id is \<^verbatim>\<open>null\<close>.
\<close>

record RoomState =
  rs_url :: string
  rs_time :: real
  rs_playing :: bool
  rs_updatedAt :: int
  rs_hostId :: "string option"

text \<open>
  The fields of \<^verbatim>\<open>RoomManager\<close> that the state and synchronisation methods read or
  write, prefixed \<open>rm_\<close>.
\<close>

record RoomManager =
  rm_userId :: string
  rm_isHost :: bool
  rm_currentState :: RoomState
  rm_lastSyncTime :: int
  rm_isUpdatingFromRemote :: bool
  rm_videoPlayer :: VideoPlayer

text \<open>
  The argument of \<^verbatim>\<open>updateRoomState\<close>: an object literal with some of the fields
  \<^verbatim>\<open>url\<close>, \<^verbatim>\<open>time\<close>, \<^verbatim>\<open>playing\<close>.
\<close>

record updates =
  u_url :: "string option"
  u_time :: "real option"
  u_playing :: "bool option"

text \<open>
  A write request sent to the store path \<^verbatim>\<open>rooms/<id>/state\<close>: the whole record
  (\<^verbatim>\<open>updateRoomState\<close>) or the two fields \<^verbatim>\<open>hostId\<close> and \<^verbatim>\<open>updatedAt\<close>
  (\<^verbatim>\<open>updateRoomHost\<close>).
\<close>

datatype store_write =
    WriteRoomState RoomState
  | WriteHost "string option" int

text \<open>
  \<^verbatim>\<open>updateRoomState\<close> reads the clock twice: \<open>now1\<close> for \<^verbatim>\<open>updatedAt\<close>, \<open>now2\<close> for
  \<^verbatim>\<open>lastSyncTime\<close>.
\<close>

definition updateRoomState ::
    "int \<Rightarrow> int \<Rightarrow> updates \<Rightarrow> RoomManager \<Rightarrow> RoomManager \<times> store_write list" where
  "updateRoomState now1 now2 upd rm =
     (if \<not> rm_isHost rm then (rm, [])
      else
        let cs = rm_currentState rm;
            newState =
              \<lparr>rs_url = (case u_url upd of Some u \<Rightarrow> u | None \<Rightarrow> rs_url cs),
               rs_time = (case u_time upd of Some t \<Rightarrow> t | None \<Rightarrow> rs_time cs),
               rs_playing = (case u_playing upd of Some p \<Rightarrow> p | None \<Rightarrow> rs_playing cs),
               rs_updatedAt = now1,
               rs_hostId = Some (rm_userId rm)\<rparr>
        in (rm\<lparr>rm_currentState := newState, rm_lastSyncTime := now2\<rparr>,
            [WriteRoomState newState]))"

text \<open>
  Two local constants of \<^verbatim>\<open>syncToRemoteState\<close>, named as in the source:
  \<^verbatim>\<open>remoteTime = currentState.time + timeSinceUpdate / 1000\<close> and
  \<^verbatim>\<open>drift = Math.abs(remoteTime - localTime)\<close>.
\<close>

definition remoteTime :: "RoomState \<Rightarrow> int \<Rightarrow> real" where
  "remoteTime cs now = rs_time cs + real_of_int (now - rs_updatedAt cs) / 1000"

definition drift :: "RoomState \<Rightarrow> int \<Rightarrow> real \<Rightarrow> real" where
  "drift cs now localTime = \<bar>remoteTime cs now - localTime\<bar>"

text \<open>
  \<^verbatim>\<open>seek\<close>, \<^verbatim>\<open>play\<close> and \<^verbatim>\<open>pause\<close> are \<^verbatim>\<open>async\<close> and are called without \<^verbatim>\<open>await\<close>:
  an exception inside one of them rejects a promise nobody reads, and the caller goes on
  with the player as it was.
\<close>

definition unawaited :: "VideoPlayer \<Rightarrow> vp_step \<Rightarrow> VideoPlayer \<times> backend_call list" where
  "unawaited vp r = (case r of Inl _ \<Rightarrow> (vp, []) | Inr s \<Rightarrow> s)"

text \<open>
  \<^verbatim>\<open>syncToRemoteState(force)\<close> at clock reading \<open>now\<close>. The result is the manager
  afterwards and the commands that reached the backend, in order. The toast and the debug
  panel are display only and are left out.
\<close>

definition syncToRemoteState ::
    "bool \<Rightarrow> int \<Rightarrow> RoomManager \<Rightarrow> (RoomManager \<times> backend_call list) result" where
  "syncToRemoteState force now rm =
     (let cs = rm_currentState rm; vp = rm_videoPlayer rm in
      if rm_isHost rm \<or> rs_url cs = [] \<or> \<not> isReady vp then Inr (rm, [])
      else
        let timeSinceUpdate = now - rs_updatedAt cs in
        if timeSinceUpdate > 10000 \<and> \<not> force then Inr (rm, [])
        else
          (case getCurrentTime vp of
             Inl e \<Rightarrow> Inl e
           | Inr localTime \<Rightarrow>
               (let (vp1, log1) =
                      (if drift cs now localTime > 4 / 10 \<or> force
                       then unawaited vp (seek (remoteTime cs now) vp)
                       else (vp, []));
                    shouldBePlaying = rs_playing cs
                in case isPlaying vp1 of
                     Inl e \<Rightarrow> Inl e
                   | Inr playingNow \<Rightarrow>
                       (let (vp2, log2) =
                              (if shouldBePlaying \<and> \<not> playingNow
                               then unawaited vp1 (play vp1)
                               else if \<not> shouldBePlaying \<and> playingNow
                               then unawaited vp1 (pause vp1)
                               else (vp1, []))
                        in Inr (rm\<lparr>rm_isUpdatingFromRemote := False, rm_videoPlayer := vp2\<rparr>,
                                log1 @ log2)))))"

section \<open>presence.js: the PresenceManager\<close>

text \<open>
  An entry of the presence snapshot as \<^verbatim>\<open>connect\<close> writes it, fields prefixed \<open>pe_\<close>;
  both timestamps are integers. The entry kept in \<^verbatim>\<open>this.users\<close> is the spread of the
  stored entry plus the flag \<^verbatim>\<open>isOnline\<close>, fields prefixed \<open>ud_\<close>.
\<close>

record PresenceEntry =
  pe_name :: string
  pe_joinedAt :: int
  pe_lastSeen :: int

record UserData =
  ud_name :: string
  ud_joinedAt :: int
  ud_lastSeen :: int
  ud_isOnline :: bool

definition withOnline :: "PresenceEntry \<Rightarrow> bool \<Rightarrow> UserData" where
  "withOnline userData online =
     \<lparr>ud_name = pe_name userData, ud_joinedAt = pe_joinedAt userData,
      ud_lastSeen = pe_lastSeen userData, ud_isOnline = online\<rparr>"

text \<open>
  \<^verbatim>\<open>this.users\<close> is a JavaScript \<^verbatim>\<open>Map\<close>: an association list in insertion order, where
  \<^verbatim>\<open>set\<close> on a key that is present keeps its position (\<open>AList.update\<close>).
  \<open>pm_onHostChangeCallback\<close> tells whether a callback is registered.
\<close>

record PresenceManager =
  pm_userId :: string
  pm_users :: "(string \<times> UserData) list"
  pm_hostId :: "string option"
  pm_onHostChangeCallback :: bool

text \<open>
  What \<^verbatim>\<open>updateHost\<close> does to the outside: a write to the room record, or a call of the
  registered callback with \<^verbatim>\<open>(newHostId, previousHostId)\<close>.
\<close>

datatype pm_effect =
    StoreWrite store_write
  | HostChangeCallback "string option" "string option"

text \<open>
  \<^verbatim>\<open>a || b\<close> on numbers: \<open>0\<close> is falsy. (An absent field is falsy as well.)
\<close>

definition js_or :: "int \<Rightarrow> int \<Rightarrow> int" where
  "js_or a b = (if a \<noteq> 0 then a else b)"

text \<open>
  \<^verbatim>\<open>const lastSeen = userData.lastSeen || userData.joinedAt || now\<close>, the value the two
  windows are measured from.
\<close>

definition lastSeenOf :: "int \<Rightarrow> PresenceEntry \<Rightarrow> int" where
  "lastSeenOf now userData = js_or (js_or (pe_lastSeen userData) (pe_joinedAt userData)) now"

text \<open>
  \<^verbatim>\<open>updateRoomHost\<close> sends one merge of \<^verbatim>\<open>hostId\<close> and \<^verbatim>\<open>updatedAt: Date.now()\<close>; a
  failure of the store is caught and logged.
\<close>

definition updateRoomHost :: "string option \<Rightarrow> int \<Rightarrow> store_write list" where
  "updateRoomHost newHostId now = [WriteHost newHostId now]"

text \<open>
  \<^verbatim>\<open>updateHost\<close>: filter the online entries, sort them by \<^verbatim>\<open>joinedAt\<close> (the sort of
  arrays is stable, as \<open>sort_key\<close> is), take the first key. \<open>now\<close> is the clock reading
  inside \<^verbatim>\<open>updateRoomHost\<close>. That method is called before the callback, but it sends its
  write only after an \<^verbatim>\<open>await\<close>, when the callback, which runs at once, has returned: the
  effects are listed in the order in which they happen.
\<close>

definition onlineUsers :: "(string \<times> UserData) list \<Rightarrow> (string \<times> UserData) list" where
  "onlineUsers users =
     sort_key (\<lambda>(userId, userData). ud_joinedAt userData)
       (filter (\<lambda>(userId, userData). ud_isOnline userData) users)"

definition newHostId :: "(string \<times> UserData) list \<Rightarrow> string option" where
  "newHostId users =
     (case onlineUsers users of [] \<Rightarrow> None | (userId, userData) # rest \<Rightarrow> Some userId)"

definition updateHost :: "int \<Rightarrow> PresenceManager \<Rightarrow> PresenceManager \<times> pm_effect list" where
  "updateHost now pm =
     (let new = newHostId (pm_users pm) in
      if new \<noteq> pm_hostId pm then
        (let previousHostId = pm_hostId pm in
         (pm\<lparr>pm_hostId := new\<rparr>,
          (if pm_onHostChangeCallback pm then [HostChangeCallback new previousHostId] else [])
          @ map StoreWrite (updateRoomHost new now)))
      else (pm, []))"

text \<open>
  The number \<^verbatim>\<open>updateViewersCount\<close> displays.
\<close>

definition viewersCount :: "PresenceManager \<Rightarrow> nat" where
  "viewersCount pm = length (filter ud_isOnline (map snd (pm_users pm)))"

text \<open>
  \<^verbatim>\<open>updatePresence(presenceData)\<close>, with \<open>now\<close> its own clock reading and \<open>nowW\<close> the one
  of the host write. \<open>None\<close> is a \<^verbatim>\<open>null\<close> snapshot; otherwise the snapshot is the list
  of \<^verbatim>\<open>Object.entries\<close>, whose values are entries (the store holds no \<^verbatim>\<open>null\<close>
  child, so the \<^verbatim>\<open>if (!userData) return\<close> of the loop never fires). The toasts and the
  avatar list are display only.
\<close>

definition keepAlive ::
    "int \<Rightarrow> (string \<times> UserData) list \<Rightarrow> string \<times> PresenceEntry \<Rightarrow> (string \<times> UserData) list" where
  "keepAlive now users entry =
     (case entry of (userId, userData) \<Rightarrow>
        (let lastSeen = lastSeenOf now userData;
             timeSinceLastSeen = now - lastSeen
         in if timeSinceLastSeen < 60000
            then AList.update userId (withOnline userData (timeSinceLastSeen < 35000)) users
            else users))"

definition updatePresence ::
    "int \<Rightarrow> int \<Rightarrow> (string \<times> PresenceEntry) list option \<Rightarrow> PresenceManager
      \<Rightarrow> PresenceManager \<times> pm_effect list" where
  "updatePresence now nowW presenceData pm =
     (case presenceData of
        None \<Rightarrow> (pm\<lparr>pm_users := []\<rparr>, [])
      | Some entries \<Rightarrow> updateHost nowW (pm\<lparr>pm_users := foldl (keepAlive now) [] entries\<rparr>))"

text \<open>
  The test an entry has to pass to be kept, and the pair that is stored for it.
\<close>

definition alive :: "int \<Rightarrow> string \<times> PresenceEntry \<Rightarrow> bool" where
  "alive now entry = (now - lastSeenOf now (snd entry) < 60000)"

definition kept :: "int \<Rightarrow> string \<times> PresenceEntry \<Rightarrow> string \<times> UserData" where
  "kept now entry = (fst entry, withOnline (snd entry) (now - lastSeenOf now (snd entry) < 35000))"

section \<open>app.js: validateVideoUrl\<close>

subsection \<open>String methods\<close>

definition isAlpha :: "char \<Rightarrow> bool" where
  "isAlpha c = (c \<in> set ''abcdefghijklmnopqrstuvwxyzABCDEFGHIJKLMNOPQRSTUVWXYZ'')"

definition isDigit :: "char \<Rightarrow> bool" where
  "isDigit c = (c \<in> set ''0123456789'')"

text \<open>\<^verbatim>\<open>toLowerCase\<close> on ASCII letters.\<close>

definition lowerChar :: "char \<Rightarrow> char" where
  "lowerChar c =
     (case map_of (zip ''ABCDEFGHIJKLMNOPQRSTUVWXYZ'' ''abcdefghijklmnopqrstuvwxyz'') c of
        Some d \<Rightarrow> d
      | None \<Rightarrow> c)"

definition toLowerCase :: "string \<Rightarrow> string" where
  "toLowerCase s = map lowerChar s"

text \<open>\<^verbatim>\<open>s.includes(t)\<close>: \<open>t\<close> occurs in \<open>s\<close> as a contiguous piece.\<close>

fun includesStr :: "string \<Rightarrow> string \<Rightarrow> bool" where
  "includesStr [] t = (t = [])"
| "includesStr (c # cs) t = (take (length t) (c # cs) = t \<or> includesStr cs t)"

definition endsWith :: "string \<Rightarrow> string \<Rightarrow> bool" where
  "endsWith s t = (length t \<le> length s \<and> drop (length s - length t) s = t)"

fun splitOn :: "char \<Rightarrow> string \<Rightarrow> string list" where
  "splitOn d [] = [[]]"
| "splitOn d (c # cs) =
     (if c = d then [] # splitOn d cs
      else (case splitOn d cs of [] \<Rightarrow> [[c]] | p # ps \<Rightarrow> (c # p) # ps))"

subsection \<open>The browser's URL object\<close>

text \<open>
  \<^verbatim>\<open>new URL(url)\<close> is the browser's parser, not code of the repository. It is modelled
  for the plain shapes \<^verbatim>\<open>scheme://[user@]host[:port][/path][?query][#fragment]\<close> and
  \<^verbatim>\<open>scheme:rest\<close>: a string with no scheme (a letter, then letters, digits, \<^verbatim>\<open>+\<close>, \<^verbatim>\<open>-\<close>
  or \<^verbatim>\<open>.\<close>, then a colon) is not an absolute URL and the constructor throws, which is
  \<open>None\<close> here; an http, https, ws, wss or ftp URL needs a host, which is lower-cased, and
  gets the path \<^verbatim>\<open>/\<close> when it has none. Surrounding control characters and spaces are
  stripped and tabs and newlines removed first; a port has to be digits with a value of
  at most 65535. Percent-encoding of the path, dot segments, IPv6 literals, the other
  host checks and backslashes read as slashes are not modelled.
\<close>

record URL =
  hostname :: string
  pathname :: string
  search :: string

definition isSchemeChar :: "char \<Rightarrow> bool" where
  "isSchemeChar c = (isAlpha c \<or> isDigit c \<or> c \<in> set ''+-.'')"

definition isC0OrSpace :: "char \<Rightarrow> bool" where
  "isC0OrSpace c =
     (c \<in> set [CHR 0x00, CHR 0x01, CHR 0x02, CHR 0x03, CHR 0x04, CHR 0x05, CHR 0x06, CHR 0x07,
          CHR 0x08, CHR 0x09, CHR 0x0A, CHR 0x0B, CHR 0x0C, CHR 0x0D, CHR 0x0E, CHR 0x0F,
          CHR 0x10, CHR 0x11, CHR 0x12, CHR 0x13, CHR 0x14, CHR 0x15, CHR 0x16, CHR 0x17,
          CHR 0x18, CHR 0x19, CHR 0x1A, CHR 0x1B, CHR 0x1C, CHR 0x1D, CHR 0x1E, CHR 0x1F,
          CHR 0x20])"

definition stripInput :: "string \<Rightarrow> string" where
  "stripInput s =
     filter (\<lambda>c. c \<notin> set [CHR 0x09, CHR 0x0A, CHR 0x0D])
       (rev (dropWhile isC0OrSpace (rev (dropWhile isC0OrSpace s))))"

definition hostOf :: "string \<Rightarrow> string" where
  "hostOf authority =
     takeWhile (\<lambda>c. c \<noteq> CHR '':'') (rev (takeWhile (\<lambda>c. c \<noteq> CHR ''@'') (rev authority)))"

definition portOf :: "string \<Rightarrow> string" where
  "portOf authority =
     drop 1 (dropWhile (\<lambda>c. c \<noteq> CHR '':'') (rev (takeWhile (\<lambda>c. c \<noteq> CHR ''@'') (rev authority))))"

definition digitVal :: "char \<Rightarrow> int" where
  "digitVal c =
     (case map_of (zip ''0123456789'' [0, 1, 2, 3, 4, 5, 6, 7, 8, 9]) c of
        Some n \<Rightarrow> n
      | None \<Rightarrow> 0)"

definition validPort :: "string \<Rightarrow> bool" where
  "validPort p =
     (list_all isDigit p \<and> foldl (\<lambda>n c. 10 * n + digitVal c) 0 p \<le> 65535)"

definition pathOf :: "string \<Rightarrow> string" where
  "pathOf r = takeWhile (\<lambda>c. c \<notin> set ''?#'') r"

definition queryOf :: "string \<Rightarrow> string" where
  "queryOf r =
     (case dropWhile (\<lambda>c. c \<notin> set ''?#'') r of
        [] \<Rightarrow> []
      | c # cs \<Rightarrow> if c = CHR ''?'' then takeWhile (\<lambda>c. c \<noteq> CHR ''#'') cs else [])"

definition parseURL :: "string \<Rightarrow> URL option" where
  "parseURL url =
     (let input = stripInput url in
      case input of
        [] \<Rightarrow> None
      | c # cs \<Rightarrow>
          if \<not> isAlpha c then None
          else
            (case dropWhile isSchemeChar input of
               [] \<Rightarrow> None
             | d # afterColon \<Rightarrow>
                 if d \<noteq> CHR '':'' then None
                 else if toLowerCase (takeWhile isSchemeChar input)
                           \<in> set [''http'', ''https'', ''ws'', ''wss'', ''ftp'']
                 then
                   (let r = dropWhile (\<lambda>c. c = CHR ''/'') afterColon;
                        authority = takeWhile (\<lambda>c. c \<notin> set ''/?#'') r;
                        r' = dropWhile (\<lambda>c. c \<notin> set ''/?#'') r
                    in if hostOf authority = [] then None
                       else if \<not> validPort (portOf authority) then None
                       else Some \<lparr>hostname = toLowerCase (hostOf authority),
                                 pathname = (if pathOf r' = [] then ''/'' else pathOf r'),
                                 search = queryOf r'\<rparr>)
                 else if take 2 afterColon = ''//''
                 then
                   (let r = drop 2 afterColon;
                        authority = takeWhile (\<lambda>c. c \<notin> set ''/?#'') r;
                        r' = dropWhile (\<lambda>c. c \<notin> set ''/?#'') r
                    in if \<not> validPort (portOf authority) then None
                       else Some \<lparr>hostname = hostOf authority, pathname = pathOf r',
                                 search = queryOf r'\<rparr>)
                 else Some \<lparr>hostname = [], pathname = pathOf afterColon,
                           search = queryOf afterColon\<rparr>))"

text \<open>
  \<^verbatim>\<open>urlObj.searchParams\<close>: the pairs of the query in order, each name and value with
  \<^verbatim>\<open>+\<close> read as a space and \<^verbatim>\<open>%XX\<close> decoded to its byte; \<^verbatim>\<open>has\<close> and \<^verbatim>\<open>get\<close> look up the
  first pair with the name (\<open>map_of\<close>).
\<close>

definition hexVal :: "char \<Rightarrow> int option" where
  "hexVal c =
     map_of (zip ''0123456789abcdefABCDEF''
               [0, 1, 2, 3, 4, 5, 6, 7, 8, 9, 10, 11, 12, 13, 14, 15, 10, 11, 12, 13, 14, 15]) c"

fun percentDecode :: "string \<Rightarrow> string" where
  "percentDecode (c # h # l # rest) =
     (if c = CHR ''%'' \<and> hexVal h \<noteq> None \<and> hexVal l \<noteq> None
      then char_of (16 * the (hexVal h) + the (hexVal l)) # percentDecode rest
      else c # percentDecode (h # l # rest))"
| "percentDecode (c # cs) = c # percentDecode cs"
| "percentDecode [] = []"

definition formDecode :: "string \<Rightarrow> string" where
  "formDecode s = percentDecode (map (\<lambda>c. if c = CHR ''+'' then CHR '' '' else c) s)"

definition searchParams :: "URL \<Rightarrow> (string \<times> string) list" where
  "searchParams urlObj =
     map (\<lambda>p. (formDecode (takeWhile (\<lambda>c. c \<noteq> CHR ''='') p),
               formDecode (drop 1 (dropWhile (\<lambda>c. c \<noteq> CHR ''='') p))))
       (filter (\<lambda>p. p \<noteq> []) (splitOn CHR ''&'' (search urlObj)))"

subsection \<open>The functions of app.js\<close>

definition cleanYouTubeUrl :: "string \<Rightarrow> string" where
  "cleanYouTubeUrl url =
     (case parseURL url of
        None \<Rightarrow> url
      | Some urlObj \<Rightarrow>
          (let videoId =
                 (if hostname urlObj = ''youtu.be'' then drop 1 (pathname urlObj)
                  else (case map_of (searchParams urlObj) ''v'' of Some v \<Rightarrow> v | None \<Rightarrow> []))
           in if videoId \<noteq> [] then ''https://www.youtube.com/watch?v='' @ videoId else url))"

text \<open>
  \<^verbatim>\<open>pathname.match(/\/(\d+)/)\<close>: the digits after the first slash that is followed by a
  digit.
\<close>

fun matchSlashDigits :: "string \<Rightarrow> string option" where
  "matchSlashDigits [] = None"
| "matchSlashDigits (c # cs) =
     (if c = CHR ''/'' \<and> takeWhile isDigit cs \<noteq> [] then Some (takeWhile isDigit cs)
      else matchSlashDigits cs)"

definition cleanVimeoUrl :: "string \<Rightarrow> string" where
  "cleanVimeoUrl url =
     (case parseURL url of
        None \<Rightarrow> url
      | Some urlObj \<Rightarrow>
          (case matchSlashDigits (pathname urlObj) of
             Some m \<Rightarrow> ''https://vimeo.com/'' @ m
           | None \<Rightarrow> url))"

text \<open>
  \<^verbatim>\<open>validateVideoUrl\<close>: \<open>None\<close> is the \<^verbatim>\<open>null\<close> it returns, from the last line or from the
  \<^verbatim>\<open>catch\<close>; the type strings \<^verbatim>\<open>'youtube'\<close>, \<^verbatim>\<open>'vimeo'\<close>, \<^verbatim>\<open>'mp4'\<close> are the constructors
  of \<open>video_type\<close>.
\<close>

definition validateVideoUrl :: "string \<Rightarrow> (video_type \<times> string) option" where
  "validateVideoUrl url =
     (case parseURL url of
        None \<Rightarrow> None
      | Some urlObj \<Rightarrow>
          if includesStr (hostname urlObj) ''youtube.com'' \<or> includesStr (hostname urlObj) ''youtu.be''
          then Some (YouTube, cleanYouTubeUrl url)
          else if includesStr (hostname urlObj) ''vimeo.com''
          then Some (Vimeo, cleanVimeoUrl url)
          else if includesStr (toLowerCase url) ''.mp4''
                  \<or> endsWith (toLowerCase (pathname urlObj)) ''.mp4''
          then Some (MP4, url)
          else None)"

section \<open>Loaded players and example states\<close>

text \<open>
  A player is loaded when it has signalled readiness for one of the three backends and
  holds the backend object: the state every \<^verbatim>\<open>load...Video\<close> method leaves behind when
  its ready handler has run.
\<close>

definition loaded :: "VideoPlayer \<Rightarrow> bool" where
  "loaded vp = (vp_isReady vp \<and> vp_player vp \<noteq> None \<and> vp_type vp \<noteq> None)"

text \<open>
  A viewer whose MP4 player stands paused at 101.5 s, holding the record the host wrote at
  \<open>T = 1700000000000\<close> with \<^verbatim>\<open>time: 100, playing: true\<close>; the same viewer after one
  reconciliation at \<open>T + 3000\<close>; the same viewer while the video is still loading; the
  host of the room; and the viewer holding a record with no url.
\<close>

definition example_state :: RoomState where
  "example_state =
     \<lparr>rs_url = ''https://example.com/a.mp4'', rs_time = 100, rs_playing = True,
      rs_updatedAt = 1700000000000, rs_hostId = Some ''host''\<rparr>"

definition example_player :: VideoPlayer where
  "example_player =
     \<lparr>vp_player = Some \<lparr>b_currentTime = 1015 / 10, b_playing = False, b_muted = False,
                         b_volume = 1 / 2\<rparr>,
      vp_type = Some MP4, vp_isReady = True, vp_currentTime = 0, vp_duration = 600,
      vp_playing = False, vp_muted = False, vp_volume = 1 / 2\<rparr>"

definition example_viewer :: RoomManager where
  "example_viewer =
     \<lparr>rm_userId = ''viewer'', rm_isHost = False, rm_currentState = example_state,
      rm_lastSyncTime = 0, rm_isUpdatingFromRemote = False, rm_videoPlayer = example_player\<rparr>"

definition example_synced :: RoomManager where
  "example_synced =
     example_viewer\<lparr>rm_videoPlayer :=
       \<lparr>vp_player = Some \<lparr>b_currentTime = 103, b_playing = True, b_muted = False,
                           b_volume = 1 / 2\<rparr>,
        vp_type = Some MP4, vp_isReady = True, vp_currentTime = 103, vp_duration = 600,
        vp_playing = True, vp_muted = False, vp_volume = 1 / 2\<rparr>\<rparr>"

definition example_loading :: RoomManager where
  "example_loading =
     example_viewer\<lparr>rm_videoPlayer := newVideoPlayer\<lparr>vp_type := Some MP4\<rparr>\<rparr>"

definition example_host :: RoomManager where
  "example_host = example_viewer\<lparr>rm_userId := ''host'', rm_isHost := True\<rparr>"

definition example_no_url :: RoomManager where
  "example_no_url = example_viewer\<lparr>rm_currentState := example_state\<lparr>rs_url := []\<rparr>\<rparr>"

text \<open>
  A presence manager that still holds an earlier host, stored entries by \<^verbatim>\<open>joinedAt\<close> and
  \<^verbatim>\<open>lastSeen\<close>, a snapshot read at \<open>1700000000000\<close> (entries seen 1 s, 2 s, 40 s and
  61 s ago), a snapshot read at the same time with one entry seen 1 s ago and an earlier
  one whose \<^verbatim>\<open>lastSeen\<close> is 0.
\<close>

definition example_pm :: PresenceManager where
  "example_pm =
     \<lparr>pm_userId = ''me'', pm_users = [], pm_hostId = Some ''old'', pm_onHostChangeCallback = True\<rparr>"

definition entry :: "int \<Rightarrow> int \<Rightarrow> PresenceEntry" where
  "entry joined seen = \<lparr>pe_name = ''user'', pe_joinedAt = joined, pe_lastSeen = seen\<rparr>"

definition example_snapshot :: "(string \<times> PresenceEntry) list" where
  "example_snapshot =
     [(''b'', entry 200 1699999999000), (''a'', entry 100 1699999998000),
      (''c'', entry 50 1699999960000), (''d'', entry 10 1699999939000)]"

definition example_ghost_snapshot :: "(string \<times> PresenceEntry) list" where
  "example_ghost_snapshot =
     [(''a'', entry 1699999995000 1699999999000), (''ghost'', entry 1699999990000 0)]"

section \<open>The adapter on a loaded player\<close>

lemma getCurrentTime_loaded: "loaded vp \<Longrightarrow> \<exists>lt. getCurrentTime vp = Inr lt"
  by (auto simp: loaded_def getCurrentTime_def split: option.splits video_type.splits)

lemma isPlaying_loaded: "loaded vp \<Longrightarrow> \<exists>p. isPlaying vp = Inr p"
  by (auto simp: loaded_def isPlaying_def split: option.splits video_type.splits)

lemma seek_loaded:
  assumes "loaded vp"
  shows "\<exists>vp'. seek t vp = Inr (vp', [SeekCall t]) \<and> loaded vp'
           \<and> getCurrentTime vp' = Inr t \<and> isPlaying vp' = isPlaying vp"
proof -
  from assms obtain b ty where "vp_isReady vp" "vp_player vp = Some b" "vp_type vp = Some ty"
    by (auto simp: loaded_def)
  then show ?thesis
    by (cases ty) (simp_all add: loaded_def seek_def getCurrentTime_def isPlaying_def)
qed

lemma play_loaded:
  assumes "loaded vp"
  shows "\<exists>vp'. play vp = Inr (vp', [PlayCall]) \<and> loaded vp'
           \<and> isPlaying vp' = Inr True \<and> getCurrentTime vp' = getCurrentTime vp"
proof -
  from assms obtain b ty where "vp_isReady vp" "vp_player vp = Some b" "vp_type vp = Some ty"
    by (auto simp: loaded_def)
  then show ?thesis
    by (cases ty) (simp_all add: loaded_def play_def getCurrentTime_def isPlaying_def)
qed

lemma pause_loaded:
  assumes "loaded vp"
  shows "\<exists>vp'. pause vp = Inr (vp', [PauseCall]) \<and> loaded vp'
           \<and> isPlaying vp' = Inr False \<and> getCurrentTime vp' = getCurrentTime vp"
proof -
  from assms obtain b ty where "vp_isReady vp" "vp_player vp = Some b" "vp_type vp = Some ty"
    by (auto simp: loaded_def)
  then show ?thesis
    by (cases ty) (simp_all add: loaded_def pause_def getCurrentTime_def isPlaying_def)
qed

lemma toggle_loaded:
  assumes "loaded vp1"
  shows "\<exists>vp2 log2.
           (if should \<and> \<not> p then unawaited vp1 (play vp1)
            else if \<not> should \<and> p then unawaited vp1 (pause vp1)
            else (vp1, [])) = (vp2, log2)
           \<and> getCurrentTime vp2 = getCurrentTime vp1"
proof -
  from play_loaded[OF assms] obtain a where
    a: "play vp1 = Inr (a, [PlayCall])" "getCurrentTime a = getCurrentTime vp1" by blast
  from pause_loaded[OF assms] obtain c where
    c: "pause vp1 = Inr (c, [PauseCall])" "getCurrentTime c = getCurrentTime vp1" by blast
  show ?thesis using a c by (simp add: unawaited_def)
qed

section \<open>Reconciliation\<close>

lemmas adapter_defs =
  getCurrentTime_def isPlaying_def seek_def play_def pause_def unawaited_def isReady_def

lemma example_viewer_simps:
  "\<not> rm_isHost example_viewer"
  "rs_url (rm_currentState example_viewer) \<noteq> []"
  "loaded (rm_videoPlayer example_viewer)"
  "getCurrentTime (rm_videoPlayer example_viewer) = Inr (1015 / 10)"
  "rs_updatedAt (rm_currentState example_viewer) = 1700000000000"
  "rs_time (rm_currentState example_viewer) = 100"
  by (simp_all add: example_viewer_def example_state_def example_player_def loaded_def
      getCurrentTime_def)

text \<open>
  Past both guards the method does exactly the three steps: read the local time, seek or
  not, toggle or not.
\<close>

lemma sync_unfold:
  assumes "\<not> rm_isHost rm" "rs_url (rm_currentState rm) \<noteq> []"
    "vp_isReady (rm_videoPlayer rm)"
    "force \<or> now - rs_updatedAt (rm_currentState rm) \<le> 10000"
    "getCurrentTime (rm_videoPlayer rm) = Inr lt"
    "(if drift (rm_currentState rm) now lt > 4 / 10 \<or> force
      then unawaited (rm_videoPlayer rm)
             (seek (remoteTime (rm_currentState rm) now) (rm_videoPlayer rm))
      else (rm_videoPlayer rm, [])) = (vp1, log1)"
    "isPlaying vp1 = Inr p"
    "(if rs_playing (rm_currentState rm) \<and> \<not> p then unawaited vp1 (play vp1)
      else if \<not> rs_playing (rm_currentState rm) \<and> p then unawaited vp1 (pause vp1)
      else (vp1, [])) = (vp2, log2)"
  shows "syncToRemoteState force now rm =
           Inr (rm\<lparr>rm_isUpdatingFromRemote := False, rm_videoPlayer := vp2\<rparr>, log1 @ log2)"
proof (cases force)
  case True
  then show ?thesis
    unfolding syncToRemoteState_def Let_def
    using assms(1,2,3) assms(5,6,7,8)
    by (simp add: isReady_def)
next
  case False
  with assms(4) have "\<not> now - rs_updatedAt (rm_currentState rm) > 10000" by auto
  with False show ?thesis
    unfolding syncToRemoteState_def Let_def
    using assms(1,2,3) assms(5,6,7,8)
    by (simp add: isReady_def)
qed

lemma sync_seek_general:
  assumes "\<not> rm_isHost rm" "rs_url (rm_currentState rm) \<noteq> []" "loaded (rm_videoPlayer rm)"
    "force \<or> now - rs_updatedAt (rm_currentState rm) \<le> 10000"
    "getCurrentTime (rm_videoPlayer rm) = Inr lt"
    "force \<or> drift (rm_currentState rm) now lt > 4 / 10"
  shows "\<exists>rm' rest. syncToRemoteState force now rm =
             Inr (rm', SeekCall (remoteTime (rm_currentState rm) now) # rest)
          \<and> getCurrentTime (rm_videoPlayer rm') = Inr (remoteTime (rm_currentState rm) now)"
proof -
  let ?cs = "rm_currentState rm" and ?vp = "rm_videoPlayer rm"
  let ?rt = "remoteTime ?cs now"
  from seek_loaded[OF assms(3), of ?rt] obtain vp1 where
    s: "seek ?rt ?vp = Inr (vp1, [SeekCall ?rt])" "loaded vp1" "getCurrentTime vp1 = Inr ?rt"
    by blast
  from isPlaying_loaded[OF s(2)] obtain p where p: "isPlaying vp1 = Inr p" by blast
  from toggle_loaded[OF s(2), of "rs_playing ?cs" p] obtain vp2 log2 where
    t: "(if rs_playing ?cs \<and> \<not> p then unawaited vp1 (play vp1)
         else if \<not> rs_playing ?cs \<and> p then unawaited vp1 (pause vp1)
         else (vp1, [])) = (vp2, log2)"
       "getCurrentTime vp2 = getCurrentTime vp1" by blast
  have r: "vp_isReady ?vp" using assms(3) by (simp add: loaded_def)
  have sk: "(if drift ?cs now lt > 4 / 10 \<or> force then unawaited ?vp (seek ?rt ?vp)
             else (?vp, [])) = (vp1, [SeekCall ?rt])"
    using assms(6) s(1) by (auto simp: unawaited_def)
  have "syncToRemoteState force now rm =
          Inr (rm\<lparr>rm_isUpdatingFromRemote := False, rm_videoPlayer := vp2\<rparr>,
               [SeekCall ?rt] @ log2)"
    by (rule sync_unfold[OF assms(1,2) r assms(4,5) sk p t(1)])
  then show ?thesis using t(2) s(3) by simp
qed

text \<open>
  C1. A viewer (not host, a url in the cached record, a loaded and ready player) that
  reconciles without force on a record at most 10000 ms old: the predicted remote time is
  \<open>time + staleness / 1000\<close>, the same whether the record says playing or paused; when
  the drift from the local time exceeds 0.4 the local player is seeked to that time. In
  the scenario (time 100, written at \<open>T\<close>, evaluated at \<open>T + 3000\<close>, local time 101.5) the
  predicted time is 103, the drift is 1.5, above 0.4, and the viewer seeks to 103.
\<close>

theorem viewer_sync_predicted_time:
  assumes "\<not> rm_isHost rm" "rs_url (rm_currentState rm) \<noteq> []" "loaded (rm_videoPlayer rm)"
    "getCurrentTime (rm_videoPlayer rm) = Inr localTime"
    "now - rs_updatedAt (rm_currentState rm) \<le> 10000"
  shows "remoteTime (rm_currentState rm) now =
           rs_time (rm_currentState rm)
             + real_of_int (now - rs_updatedAt (rm_currentState rm)) / 1000
       \<and> remoteTime (rm_currentState rm\<lparr>rs_playing := False\<rparr>) now =
           remoteTime (rm_currentState rm\<lparr>rs_playing := True\<rparr>) now
       \<and> (drift (rm_currentState rm) now localTime > 4 / 10 \<longrightarrow>
            (\<exists>rm' rest. syncToRemoteState False now rm =
                 Inr (rm', SeekCall (rs_time (rm_currentState rm)
                        + real_of_int (now - rs_updatedAt (rm_currentState rm)) / 1000) # rest)))
       \<and> (rs_time (rm_currentState rm) = 100
            \<and> now = rs_updatedAt (rm_currentState rm) + 3000
            \<and> localTime = 1015 / 10 \<longrightarrow>
            remoteTime (rm_currentState rm) now = 103
            \<and> drift (rm_currentState rm) now localTime = 15 / 10
            \<and> drift (rm_currentState rm) now localTime > 4 / 10
            \<and> (\<exists>rm' rest. syncToRemoteState False now rm = Inr (rm', SeekCall 103 # rest)
                  \<and> getCurrentTime (rm_videoPlayer rm') = Inr 103))"
proof -
  let ?cs = "rm_currentState rm"
  have g: "drift ?cs now localTime > 4 / 10 \<Longrightarrow>
      \<exists>rm' rest. syncToRemoteState False now rm = Inr (rm', SeekCall (remoteTime ?cs now) # rest)
          \<and> getCurrentTime (rm_videoPlayer rm') = Inr (remoteTime ?cs now)"
    using sync_seek_general[OF assms(1,2,3) _ assms(4), of False now] assms(5) by simp
  have a: "remoteTime ?cs now = rs_time ?cs + real_of_int (now - rs_updatedAt ?cs) / 1000"
    by (simp add: remoteTime_def)
  have b: "remoteTime (?cs\<lparr>rs_playing := False\<rparr>) now = remoteTime (?cs\<lparr>rs_playing := True\<rparr>) now"
    by (simp add: remoteTime_def)
  have c: "drift ?cs now localTime > 4 / 10 \<longrightarrow>
            (\<exists>rm' rest. syncToRemoteState False now rm =
                 Inr (rm', SeekCall (rs_time ?cs + real_of_int (now - rs_updatedAt ?cs) / 1000) # rest))"
    using g a by auto
  have d: "rs_time ?cs = 100 \<and> now = rs_updatedAt ?cs + 3000 \<and> localTime = 1015 / 10 \<longrightarrow>
            remoteTime ?cs now = 103
            \<and> drift ?cs now localTime = 15 / 10
            \<and> drift ?cs now localTime > 4 / 10
            \<and> (\<exists>rm' rest. syncToRemoteState False now rm = Inr (rm', SeekCall 103 # rest)
                  \<and> getCurrentTime (rm_videoPlayer rm') = Inr 103)"
  proof
    assume h: "rs_time ?cs = 100 \<and> now = rs_updatedAt ?cs + 3000 \<and> localTime = 1015 / 10"
    then have r: "remoteTime ?cs now = 103" by (simp add: remoteTime_def)
    with h have dr: "drift ?cs now localTime = 15 / 10" by (simp add: drift_def)
    then have "drift ?cs now localTime > 4 / 10" by simp
    with g r dr show "remoteTime ?cs now = 103
            \<and> drift ?cs now localTime = 15 / 10
            \<and> drift ?cs now localTime > 4 / 10
            \<and> (\<exists>rm' rest. syncToRemoteState False now rm = Inr (rm', SeekCall 103 # rest)
                  \<and> getCurrentTime (rm_videoPlayer rm') = Inr 103)" by simp
  qed
  from a b c d show ?thesis by blast
qed

theorem viewer_sync_predicted_time_witness:
  "remoteTime (rm_currentState example_viewer) 1700000003000 = 103
   \<and> drift (rm_currentState example_viewer) 1700000003000 (1015 / 10) = 15 / 10
   \<and> (\<exists>rm' rest. syncToRemoteState False 1700000003000 example_viewer
                     = Inr (rm', SeekCall 103 # rest)
          \<and> getCurrentTime (rm_videoPlayer rm') = Inr 103)"
  using viewer_sync_predicted_time[OF example_viewer_simps(1,2,3,4), where now = 1700000003000]
  by (simp add: example_viewer_simps(5,6))

lemma sync_guard:
  assumes "rm_isHost rm \<or> rs_url (rm_currentState rm) = [] \<or> \<not> isReady (rm_videoPlayer rm)"
  shows "syncToRemoteState force now rm = Inr (rm, [])"
  using assms by (auto simp: syncToRemoteState_def Let_def)

text \<open>
  C2, as stated, fails: a forced reconciliation still has to pass the first guard of
  \<^verbatim>\<open>syncToRemoteState\<close>, so a viewer whose video has not signalled readiness yet, the
  host, and a viewer whose record has no url issue no seek when they force a sync.
\<close>

theorem forced_sync_guard_counterexample:
  "syncToRemoteState True 1700000003000 example_loading = Inr (example_loading, [])
   \<and> syncToRemoteState True 1700000003000 example_host = Inr (example_host, [])
   \<and> syncToRemoteState True 1700000003000 example_no_url = Inr (example_no_url, [])"
  by (simp add: syncToRemoteState_def example_loading_def example_host_def example_no_url_def
      example_viewer_def example_state_def newVideoPlayer_def isReady_def)

text \<open>
  C2, amended. A forced reconciliation of a client that is host, or holds a record with no
  url, or has a player that is not ready, does nothing at all: no command reaches the
  player and the manager is as before. A forced reconciliation of a client that is not
  host, holds a record with a url and has a loaded, ready player seeks the local player to
  the predicted remote time, for every drift and every staleness.
\<close>

theorem forced_sync_seeks:
  "(rm_isHost rm \<or> rs_url (rm_currentState rm) = [] \<or> \<not> isReady (rm_videoPlayer rm) \<longrightarrow>
      syncToRemoteState True now rm = Inr (rm, []))
   \<and> (\<not> rm_isHost rm \<and> rs_url (rm_currentState rm) \<noteq> [] \<and> loaded (rm_videoPlayer rm) \<longrightarrow>
        (\<exists>rm' rest. syncToRemoteState True now rm =
            Inr (rm', SeekCall (remoteTime (rm_currentState rm) now) # rest)
          \<and> getCurrentTime (rm_videoPlayer rm') = Inr (remoteTime (rm_currentState rm) now)))"
proof (intro conjI impI)
  assume "rm_isHost rm \<or> rs_url (rm_currentState rm) = [] \<or> \<not> isReady (rm_videoPlayer rm)"
  then show "syncToRemoteState True now rm = Inr (rm, [])" by (rule sync_guard)
next
  assume a: "\<not> rm_isHost rm \<and> rs_url (rm_currentState rm) \<noteq> [] \<and> loaded (rm_videoPlayer rm)"
  then obtain lt where "getCurrentTime (rm_videoPlayer rm) = Inr lt"
    using getCurrentTime_loaded by blast
  from sync_seek_general[OF _ _ _ _ this, of True now] a
  show "\<exists>rm' rest. syncToRemoteState True now rm =
            Inr (rm', SeekCall (remoteTime (rm_currentState rm) now) # rest)
          \<and> getCurrentTime (rm_videoPlayer rm') = Inr (remoteTime (rm_currentState rm) now)"
    by simp
qed

theorem forced_sync_seeks_witness:
  "syncToRemoteState True 1700000050000 example_no_url = Inr (example_no_url, [])
   \<and> (\<exists>rm' rest. syncToRemoteState True 1700000050000 example_viewer
                  = Inr (rm', SeekCall 150 # rest)
          \<and> getCurrentTime (rm_videoPlayer rm') = Inr 150)"
proof -
  have n: "rs_url (rm_currentState example_no_url) = []"
    by (simp add: example_no_url_def)
  from forced_sync_seeks[where rm = example_no_url and now = 1700000050000] n
  have a: "syncToRemoteState True 1700000050000 example_no_url = Inr (example_no_url, [])"
    by simp
  from forced_sync_seeks[where rm = example_viewer and now = 1700000050000]
    example_viewer_simps(1,2,3)
  have "\<exists>rm' rest. syncToRemoteState True 1700000050000 example_viewer
                  = Inr (rm', SeekCall (remoteTime (rm_currentState example_viewer) 1700000050000) # rest)
          \<and> getCurrentTime (rm_videoPlayer rm')
                = Inr (remoteTime (rm_currentState example_viewer) 1700000050000)"
    by simp
  with a show ?thesis by (simp add: remoteTime_def example_viewer_simps(5,6))
qed

text \<open>
  C3. A reconciliation that is not forced, on a record older than 10000 ms, does nothing:
  no command reaches the player and the manager, its player included, is as before.
\<close>

theorem stale_sync_skipped:
  "now - rs_updatedAt (rm_currentState rm) > 10000 \<Longrightarrow>
   syncToRemoteState False now rm = Inr (rm, [])"
  by (simp add: syncToRemoteState_def Let_def)

theorem stale_sync_skipped_witness:
  "syncToRemoteState False 1700000010001 example_viewer = Inr (example_viewer, [])"
  using stale_sync_skipped[where rm = example_viewer and now = 1700000010001]
  by (simp add: example_viewer_simps(5))

text \<open>
  A second application at the same clock reading, on the manager the first one left.
\<close>

lemma sync_again_unforced:
  assumes "syncToRemoteState f now rm = Inr (rm1, log1)"
  shows "syncToRemoteState False now rm1 = Inr (rm1, [])"
proof (cases "rm_isHost rm \<or> rs_url (rm_currentState rm) = [] \<or> \<not> vp_isReady (rm_videoPlayer rm)")
  case True
  then have "rm1 = rm" using assms by (auto simp: syncToRemoteState_def Let_def isReady_def)
  with True show ?thesis by (auto simp: syncToRemoteState_def Let_def isReady_def)
next
  case guard: False
  show ?thesis
  proof (cases "now - rs_updatedAt (rm_currentState rm) > 10000 \<and> \<not> f")
    case True
    then have "rm1 = rm" using assms guard by (auto simp: syncToRemoteState_def Let_def isReady_def)
    with True show ?thesis by (auto simp: syncToRemoteState_def Let_def isReady_def)
  next
    case fresh: False
    show ?thesis
    proof (cases "vp_type (rm_videoPlayer rm)")
      case None
      then show ?thesis using assms guard fresh
        by (auto simp: syncToRemoteState_def Let_def adapter_defs split: if_splits)
    next
      case (Some ty)
      show ?thesis
      proof (cases "vp_player (rm_videoPlayer rm)")
        case None
        with Some show ?thesis using assms guard fresh
          by (cases ty) (auto simp: syncToRemoteState_def Let_def adapter_defs split: if_splits)
      next
        case (Some b)
        with \<open>vp_type (rm_videoPlayer rm) = Some ty\<close> show ?thesis using assms guard fresh
          by (cases ty) (auto simp: syncToRemoteState_def Let_def adapter_defs drift_def split: if_splits)
      qed
    qed
  qed
qed

lemma sync_again_forced:
  assumes "syncToRemoteState True now rm = Inr (rm1, log1)"
  shows "\<exists>rm2 log2. syncToRemoteState True now rm1 = Inr (rm2, log2)
           \<and> set log2 \<subseteq> {SeekCall (remoteTime (rm_currentState rm) now)}"
proof (cases "rm_isHost rm \<or> rs_url (rm_currentState rm) = [] \<or> \<not> vp_isReady (rm_videoPlayer rm)")
  case True
  then have "rm1 = rm" using assms by (auto simp: syncToRemoteState_def Let_def isReady_def)
  with True show ?thesis by (auto simp: syncToRemoteState_def Let_def isReady_def)
next
  case guard: False
  show ?thesis
  proof (cases "vp_type (rm_videoPlayer rm)")
    case None
    then show ?thesis using assms guard
      by (auto simp: syncToRemoteState_def Let_def adapter_defs split: if_splits)
  next
    case (Some ty)
    show ?thesis
    proof (cases "vp_player (rm_videoPlayer rm)")
      case None
      with Some show ?thesis using assms guard
        by (cases ty) (auto simp: syncToRemoteState_def Let_def adapter_defs split: if_splits)
    next
      case (Some b)
      with \<open>vp_type (rm_videoPlayer rm) = Some ty\<close> show ?thesis using assms guard
        by (cases ty) (auto simp: syncToRemoteState_def Let_def adapter_defs drift_def split: if_splits)
    qed
  qed
qed

lemma sync_again_forced_loaded:
  assumes "syncToRemoteState True now rm = Inr (rm1, log1)"
    "\<not> rm_isHost rm" "rs_url (rm_currentState rm) \<noteq> []" "loaded (rm_videoPlayer rm)"
  shows "syncToRemoteState True now rm1
           = Inr (rm1, [SeekCall (remoteTime (rm_currentState rm) now)])"
proof -
  from assms(4) obtain b ty where
    l: "vp_isReady (rm_videoPlayer rm)" "vp_player (rm_videoPlayer rm) = Some b"
       "vp_type (rm_videoPlayer rm) = Some ty"
    by (auto simp: loaded_def)
  with assms(1,2,3) show ?thesis
    by (cases ty) (auto simp: syncToRemoteState_def Let_def adapter_defs split: if_splits)
qed

lemma example_first_sync:
  "syncToRemoteState f 1700000003000 example_viewer
     = Inr (example_synced, [SeekCall 103, PlayCall])"
  by (simp add: syncToRemoteState_def Let_def adapter_defs drift_def remoteTime_def
      example_viewer_def example_state_def example_player_def example_synced_def)

text \<open>
  C4, as stated, fails when the reconciliation is a forced one: the second forced
  application seeks again (to the same position), because \<^verbatim>\<open>drift > 0.4 || force\<close> holds
  whatever the drift.
\<close>

theorem forced_sync_twice_counterexample:
  "syncToRemoteState True 1700000003000 example_viewer
     = Inr (example_synced, [SeekCall 103, PlayCall])
   \<and> syncToRemoteState True 1700000003000 example_synced
     = Inr (example_synced, [SeekCall 103])"
  by (simp add: syncToRemoteState_def Let_def adapter_defs drift_def remoteTime_def
      example_viewer_def example_state_def example_player_def example_synced_def)

text \<open>
  C4, amended. After one application of reconciliation that returned, its commands
  obeyed, a second application to the same cached record at the same clock reading:
  when it is not forced, it sends no command to the player and leaves the manager as it
  is; when both applications are forced and the client is not host, holds a record with a
  url and has a loaded, ready player, it sends exactly one command, the seek to the same
  predicted time, and leaves the manager as it is; when both are forced and the client is
  host, or has no url, or a player that is not ready, it does nothing. In every case a
  second application with the force flag of the first never plays or pauses.
\<close>

theorem sync_twice_no_second_action:
  assumes "syncToRemoteState force now rm = Inr (rm1, calls1)"
  shows "syncToRemoteState False now rm1 = Inr (rm1, [])
       \<and> (force \<and> \<not> rm_isHost rm \<and> rs_url (rm_currentState rm) \<noteq> []
            \<and> loaded (rm_videoPlayer rm) \<longrightarrow>
            syncToRemoteState True now rm1
              = Inr (rm1, [SeekCall (remoteTime (rm_currentState rm) now)]))
       \<and> (force \<and> (rm_isHost rm \<or> rs_url (rm_currentState rm) = []
                     \<or> \<not> isReady (rm_videoPlayer rm)) \<longrightarrow>
            syncToRemoteState True now rm1 = Inr (rm1, []))
       \<and> (\<exists>rm2 calls2. syncToRemoteState force now rm1 = Inr (rm2, calls2)
             \<and> set calls2 \<subseteq> {SeekCall (remoteTime (rm_currentState rm) now)})"
proof (intro conjI impI)
  show u: "syncToRemoteState False now rm1 = Inr (rm1, [])"
    by (rule sync_again_unforced[OF assms])
  show "\<exists>rm2 calls2. syncToRemoteState force now rm1 = Inr (rm2, calls2)
             \<and> set calls2 \<subseteq> {SeekCall (remoteTime (rm_currentState rm) now)}"
  proof (cases force)
    case True
    with assms have "syncToRemoteState True now rm = Inr (rm1, calls1)" by simp
    from sync_again_forced[OF this] True show ?thesis by simp
  next
    case False
    with u show ?thesis by simp
  qed
next
  assume a: "force \<and> \<not> rm_isHost rm \<and> rs_url (rm_currentState rm) \<noteq> []
            \<and> loaded (rm_videoPlayer rm)"
  with assms have "syncToRemoteState True now rm = Inr (rm1, calls1)" by simp
  from sync_again_forced_loaded[OF this] a
  show "syncToRemoteState True now rm1
          = Inr (rm1, [SeekCall (remoteTime (rm_currentState rm) now)])" by simp
next
  assume a: "force \<and> (rm_isHost rm \<or> rs_url (rm_currentState rm) = []
                     \<or> \<not> isReady (rm_videoPlayer rm))"
  then have g: "rm_isHost rm \<or> rs_url (rm_currentState rm) = []
                     \<or> \<not> isReady (rm_videoPlayer rm)" by simp
  from sync_guard[OF g, of force now] assms have "rm1 = rm" by simp
  with sync_guard[OF g, of True now]
  show "syncToRemoteState True now rm1 = Inr (rm1, [])" by simp
qed

theorem sync_twice_no_second_action_witness:
  "syncToRemoteState False 1700000003000 example_viewer
     = Inr (example_synced, [SeekCall 103, PlayCall])
   \<and> syncToRemoteState False 1700000003000 example_synced = Inr (example_synced, [])
   \<and> syncToRemoteState True 1700000003000 example_viewer
     = Inr (example_synced, [SeekCall 103, PlayCall])
   \<and> syncToRemoteState True 1700000003000 example_synced
     = Inr (example_synced, [SeekCall (remoteTime (rm_currentState example_viewer) 1700000003000)])"
  using sync_twice_no_second_action[OF example_first_sync[of False]]
    sync_twice_no_second_action[OF example_first_sync[of True]]
    example_first_sync[of False] example_first_sync[of True] example_viewer_simps(1,2,3)
  by simp

section \<open>Writing the room record\<close>

text \<open>
  C7, as stated, fails in its last part: \<^verbatim>\<open>updatedAt\<close> is the reading of \<^verbatim>\<open>Date.now()\<close>,
  stored as it is, so when the clock has been set back between two writes of the same host
  the second record carries the smaller \<^verbatim>\<open>updatedAt\<close>.
\<close>

theorem updateRoomState_clock_back_counterexample:
  "rs_updatedAt (rm_currentState (fst (updateRoomState 1700000000400 1700000000401
       \<lparr>u_url = None, u_time = Some 8, u_playing = None\<rparr>
       (fst (updateRoomState 1700000000500 1700000000501
          \<lparr>u_url = None, u_time = Some 7, u_playing = None\<rparr> example_host)))))
   < rs_updatedAt (rm_currentState (fst (updateRoomState 1700000000500 1700000000501
       \<lparr>u_url = None, u_time = Some 7, u_playing = None\<rparr> example_host)))"
  by (simp add: updateRoomState_def Let_def example_host_def example_viewer_def)

text \<open>
  C7, amended. \<^verbatim>\<open>updateRoomState\<close> called by a client that is not host changes nothing
  and writes nothing. Called by the host it caches and writes one record whose \<^verbatim>\<open>hostId\<close>
  is the caller's id and whose \<^verbatim>\<open>updatedAt\<close> is the clock reading of the write; the caller
  stays host, and over two consecutive writes of the same host \<^verbatim>\<open>updatedAt\<close> does not
  decrease exactly when the clock reading of the second write is not below that of the
  first.
\<close>

theorem updateRoomState_host_only:
  "(\<not> rm_isHost rm \<longrightarrow> updateRoomState tw ts upd rm = (rm, []))
   \<and> (rm_isHost rm \<longrightarrow>
        (\<exists>rm'. updateRoomState tw ts upd rm = (rm', [WriteRoomState (rm_currentState rm')])
            \<and> rs_hostId (rm_currentState rm') = Some (rm_userId rm)
            \<and> rs_updatedAt (rm_currentState rm') = tw
            \<and> rm_isHost rm' \<and> rm_userId rm' = rm_userId rm
            \<and> rs_updatedAt (rm_currentState (fst (updateRoomState tw' ts' upd' rm'))) = tw'
            \<and> (rs_updatedAt (rm_currentState rm')
                   \<le> rs_updatedAt (rm_currentState (fst (updateRoomState tw' ts' upd' rm')))
                 \<longleftrightarrow> tw \<le> tw')))"
  by (simp add: updateRoomState_def Let_def)

theorem updateRoomState_host_only_witness:
  "updateRoomState 1700000000500 1700000000501 \<lparr>u_url = None, u_time = Some 7, u_playing = None\<rparr>
      example_viewer = (example_viewer, [])
   \<and> (\<exists>rm'. updateRoomState 1700000000500 1700000000501
               \<lparr>u_url = None, u_time = Some 7, u_playing = None\<rparr> example_host
             = (rm', [WriteRoomState (rm_currentState rm')])
          \<and> rs_hostId (rm_currentState rm') = Some ''host''
          \<and> rs_updatedAt (rm_currentState rm') = 1700000000500
          \<and> rs_updatedAt (rm_currentState rm')
               \<le> rs_updatedAt (rm_currentState (fst (updateRoomState 1700000000600 1700000000601
                    \<lparr>u_url = None, u_time = Some 7, u_playing = None\<rparr> rm'))))"
proof -
  let ?u = "\<lparr>u_url = None, u_time = Some 7, u_playing = None\<rparr>"
  have v: "\<not> rm_isHost example_viewer" and h: "rm_isHost example_host"
    and i: "rm_userId example_host = ''host''"
    by (simp_all add: example_viewer_def example_host_def)
  from updateRoomState_host_only[where rm = example_viewer and tw = 1700000000500
          and ts = 1700000000501 and upd = ?u] v
  have a: "updateRoomState 1700000000500 1700000000501 ?u example_viewer = (example_viewer, [])"
    by simp
  from updateRoomState_host_only[where rm = example_host and tw = 1700000000500
          and ts = 1700000000501 and upd = ?u and tw' = 1700000000600 and ts' = 1700000000601
          and upd' = ?u] h
  obtain rm' where
    "updateRoomState 1700000000500 1700000000501 ?u example_host
       = (rm', [WriteRoomState (rm_currentState rm')])"
    "rs_hostId (rm_currentState rm') = Some (rm_userId example_host)"
    "rs_updatedAt (rm_currentState rm') = 1700000000500"
    "rs_updatedAt (rm_currentState rm')
       \<le> rs_updatedAt (rm_currentState (fst (updateRoomState 1700000000600 1700000000601 ?u rm')))
     \<longleftrightarrow> (1700000000500 :: int) \<le> 1700000000600"
    by blast
  with a i show ?thesis by auto
qed

section \<open>The adapter before readiness\<close>

text \<open>
  C9. While the player has not signalled readiness, \<^verbatim>\<open>play\<close>, \<^verbatim>\<open>pause\<close>, \<^verbatim>\<open>seek\<close> and
  \<^verbatim>\<open>toggleMute\<close> return without a command to the backend and without a change of state,
  \<^verbatim>\<open>setVolume\<close> only stores the clamped volume, \<^verbatim>\<open>getCurrentTime\<close> is 0, \<^verbatim>\<open>isPlaying\<close> and
  \<^verbatim>\<open>isMuted\<close> are false, and none of them raises, whether or not a backend object exists.
\<close>

theorem not_ready_noop:
  "\<not> isReady vp \<Longrightarrow>
     play vp = Inr (vp, []) \<and> pause vp = Inr (vp, []) \<and> seek t vp = Inr (vp, [])
     \<and> toggleMute vp = Inr (vp, [])
     \<and> setVolume v vp = Inr (vp\<lparr>vp_volume := max 0 (min 1 v)\<rparr>, [])
     \<and> getCurrentTime vp = Inr 0 \<and> isPlaying vp = Inr False \<and> isMuted vp = Inr False"
  by (simp add: isReady_def play_def pause_def seek_def toggleMute_def setVolume_def
      getCurrentTime_def isPlaying_def isMuted_def)

theorem not_ready_noop_witness:
  "play newVideoPlayer = Inr (newVideoPlayer, [])
   \<and> pause newVideoPlayer = Inr (newVideoPlayer, [])
   \<and> seek 42 newVideoPlayer = Inr (newVideoPlayer, [])
   \<and> toggleMute newVideoPlayer = Inr (newVideoPlayer, [])
   \<and> setVolume 3 newVideoPlayer = Inr (newVideoPlayer\<lparr>vp_volume := 1\<rparr>, [])
   \<and> getCurrentTime newVideoPlayer = Inr 0
   \<and> isPlaying newVideoPlayer = Inr False
   \<and> isMuted newVideoPlayer = Inr False"
  using not_ready_noop[where vp = newVideoPlayer and t = 42 and v = 3]
  by (simp add: isReady_def newVideoPlayer_def)

section \<open>Video locators\<close>

text \<open>
  C8, as stated, fails for the two direct-file locators: \<^verbatim>\<open>foo.MP4\<close> and \<^verbatim>\<open>foo.mp4\<close> are
  not absolute URLs, \<^verbatim>\<open>new URL\<close> throws on them and the \<^verbatim>\<open>catch\<close> of \<^verbatim>\<open>validateVideoUrl\<close>
  returns \<^verbatim>\<open>null\<close>.
\<close>

theorem validateVideoUrl_bare_file_counterexample:
  "validateVideoUrl ''foo.MP4'' = None \<and> validateVideoUrl ''foo.mp4'' = None"
  by code_simp

text \<open>
  C8, amended. \<^verbatim>\<open>validateVideoUrl\<close> maps \<^verbatim>\<open>https://youtu.be/XYZ\<close> and
  \<^verbatim>\<open>https://www.youtube.com/watch?v=XYZ\<close> to the same YouTube form, maps
  \<^verbatim>\<open>https://vimeo.com/12345\<close> and \<^verbatim>\<open>https://vimeo.com/video/12345\<close> to the same Vimeo
  form, accepts the absolute URLs \<^verbatim>\<open>https://example.com/foo.MP4\<close> and
  \<^verbatim>\<open>https://example.com/foo.mp4\<close> as direct files, unchanged, and rejects
  \<^verbatim>\<open>https://example.com/notvideo\<close>.
\<close>

theorem validateVideoUrl_examples:
  "validateVideoUrl ''https://youtu.be/XYZ''
     = Some (YouTube, ''https://www.youtube.com/watch?v=XYZ'')
   \<and> validateVideoUrl ''https://www.youtube.com/watch?v=XYZ''
     = Some (YouTube, ''https://www.youtube.com/watch?v=XYZ'')
   \<and> validateVideoUrl ''https://vimeo.com/12345'' = Some (Vimeo, ''https://vimeo.com/12345'')
   \<and> validateVideoUrl ''https://vimeo.com/video/12345'' = Some (Vimeo, ''https://vimeo.com/12345'')
   \<and> validateVideoUrl ''https://example.com/foo.MP4'' = Some (MP4, ''https://example.com/foo.MP4'')
   \<and> validateVideoUrl ''https://example.com/foo.mp4'' = Some (MP4, ''https://example.com/foo.mp4'')
   \<and> validateVideoUrl ''https://example.com/notvideo'' = None"
  by code_simp

theorem validateVideoUrl_examples_witness:
  "validateVideoUrl ''https://youtu.be/XYZ''
     = validateVideoUrl ''https://www.youtube.com/watch?v=XYZ''
   \<and> validateVideoUrl ''https://vimeo.com/12345''
     = validateVideoUrl ''https://vimeo.com/video/12345''"
  using validateVideoUrl_examples by simp

section \<open>Presence and host election\<close>

lemma sort_key_head_min:
  assumes "sort_key f xs = y # ys"
  shows "y \<in> set xs \<and> (\<forall>z \<in> set xs. f y \<le> f z)"
proof -
  have "set (y # ys) = set xs" using assms set_sort[of f xs] by simp
  moreover have "sorted (map f (y # ys))" using assms sorted_sort_key[of f xs] by simp
  ultimately show ?thesis by auto
qed

lemma updateHost_hostId: "pm_hostId (fst (updateHost now pm)) = newHostId (pm_users pm)"
  by (simp add: updateHost_def Let_def)

lemma newHostId_None:
  assumes "\<forall>(u, d) \<in> set users. \<not> ud_isOnline d"
  shows "newHostId users = None"
proof -
  have "filter (\<lambda>(userId, userData). ud_isOnline userData) users = []"
    using assms by (auto simp: filter_empty_conv)
  then show ?thesis by (simp add: newHostId_def onlineUsers_def)
qed

lemma newHostId_earliest:
  assumes "(uid, e) \<in> set users" "ud_isOnline e"
    "\<forall>(u, d) \<in> set users. ud_isOnline d \<longrightarrow> ud_joinedAt e \<le> ud_joinedAt d"
    "\<forall>(u, d) \<in> set users. \<forall>(u', d') \<in> set users.
        ud_isOnline d \<and> ud_isOnline d' \<and> ud_joinedAt d = ud_joinedAt d' \<longrightarrow> (u, d) = (u', d')"
  shows "newHostId users = Some uid"
proof -
  let ?f = "\<lambda>(userId, userData). ud_joinedAt userData"
  let ?on = "filter (\<lambda>(userId, userData). ud_isOnline userData) users"
  have mem: "(uid, e) \<in> set ?on" using assms(1,2) by simp
  then have "sort_key ?f ?on \<noteq> []" by (metis empty_iff list.set(1) set_sort)
  then obtain y ys where s: "sort_key ?f ?on = y # ys" by (cases "sort_key ?f ?on") auto
  obtain u d where y: "y = (u, d)" by (cases y)
  from sort_key_head_min[OF s] have yin: "y \<in> set ?on" and ymin: "\<forall>z \<in> set ?on. ?f y \<le> ?f z"
    by auto
  from yin y have ud: "(u, d) \<in> set users" "ud_isOnline d" by auto
  from ymin mem y have "ud_joinedAt d \<le> ud_joinedAt e" by auto
  moreover from assms(3) ud have "ud_joinedAt e \<le> ud_joinedAt d" by auto
  ultimately have "ud_joinedAt d = ud_joinedAt e" by simp
  with assms(4) ud assms(1,2) have "(u, d) = (uid, e)" by blast
  with s y show ?thesis by (simp add: newHostId_def onlineUsers_def)
qed

lemma update_fresh: "k \<notin> fst ` set al \<Longrightarrow> AList.update k v al = al @ [(k, v)]"
  by (induction al) auto

lemma foldl_keepAlive:
  assumes "distinct (map fst entries)" "fst ` set acc \<inter> fst ` set entries = {}"
  shows "foldl (keepAlive now) acc entries = acc @ map (kept now) (filter (alive now) entries)"
  using assms
proof (induction entries arbitrary: acc)
  case Nil
  then show ?case by simp
next
  case (Cons x xs)
  obtain k e where x: "x = (k, e)" by (cases x)
  show ?case
  proof (cases "alive now x")
    case True
    from Cons.prems x have fresh: "k \<notin> fst ` set acc" by auto
    have step: "keepAlive now acc x = acc @ [kept now x]"
      using True x update_fresh[OF fresh] by (simp add: keepAlive_def alive_def kept_def Let_def)
    have "fst ` set (acc @ [kept now x]) \<inter> fst ` set xs = {}"
      using Cons.prems x by (auto simp: kept_def)
    with Cons.IH[of "acc @ [kept now x]"] Cons.prems(1) step True show ?thesis by simp
  next
    case False
    then have step: "keepAlive now acc x = acc"
      using x by (simp add: keepAlive_def alive_def Let_def)
    have "fst ` set acc \<inter> fst ` set xs = {}" using Cons.prems by auto
    with Cons.IH[of acc] Cons.prems(1) step False show ?thesis by simp
  qed
qed

lemma users_after:
  assumes "distinct (map fst entries)"
  shows "pm_users (fst (updatePresence now nowW (Some entries) pm))
           = map (kept now) (filter (alive now) entries)"
  using foldl_keepAlive[OF assms, of "[]" now]
  by (simp add: updatePresence_def updateHost_def Let_def)

lemma newHostId_online:
  assumes "newHostId users = Some u"
  shows "\<exists>d. (u, d) \<in> set users \<and> ud_isOnline d"
proof -
  let ?f = "\<lambda>(userId, userData). ud_joinedAt userData"
  let ?on = "filter (\<lambda>(userId, userData). ud_isOnline userData) users"
  from assms obtain d ys where s: "sort_key ?f ?on = (u, d) # ys"
    by (auto simp: newHostId_def onlineUsers_def split: list.splits)
  from sort_key_head_min[OF s] have "(u, d) \<in> set ?on" by simp
  then show ?thesis by auto
qed

lemma kept_pair:
  "kept now (k, e) = (k, withOnline e (now - lastSeenOf now e < 35000))"
  by (simp add: kept_def)

lemma fst_kept: "fst (kept now x) = fst x"
  by (simp add: kept_def)

lemma map_of_kept:
  assumes "distinct (map fst entries)" "(uid, e) \<in> set entries"
  shows "map_of (map (kept now) (filter (alive now) entries)) uid
           = (if alive now (uid, e) then Some (snd (kept now (uid, e))) else None)"
  using assms
proof (induction entries)
  case Nil
  then show ?case by simp
next
  case (Cons x xs)
  show ?case
  proof (cases "x = (uid, e)")
    case True
    with Cons.prems(1) have "uid \<notin> fst ` set xs" by auto
    moreover have "fst ` set (map (kept now) (filter (alive now) xs)) \<subseteq> fst ` set xs"
      by (auto simp: fst_kept image_iff) force
    ultimately have "uid \<notin> fst ` set (map (kept now) (filter (alive now) xs))"
      by blast
    then have "map_of (map (kept now) (filter (alive now) xs)) uid = None"
      by (simp add: map_of_eq_None_iff)
    with True show ?thesis by (simp add: kept_pair)
  next
    case False
    with Cons.prems(2) have mem: "(uid, e) \<in> set xs" by simp
    then have "uid \<in> fst ` set xs" by force
    moreover from Cons.prems(1) have "fst x \<notin> fst ` set xs" by simp
    ultimately have "fst x \<noteq> uid" by blast
    with mem Cons.IH Cons.prems(1) show ?thesis by (cases x) (simp add: kept_pair)
  qed
qed

lemma viewersCount_after:
  assumes "distinct (map fst entries)"
  shows "viewersCount (fst (updatePresence now nowW (Some entries) pm))
           = length (filter (\<lambda>(u, d). now - lastSeenOf now d < 35000) entries)"
proof -
  have "filter ud_isOnline (map snd (map (kept now) (filter (alive now) xs)))
          = map (snd \<circ> kept now) (filter (\<lambda>(u, d). now - lastSeenOf now d < 35000) xs)" for xs
    by (induction xs) (auto simp: kept_def alive_def withOnline_def)
  then show ?thesis
    using users_after[OF assms, of now nowW pm] by (simp add: viewersCount_def)
qed

text \<open>
  On the user map as it stands, \<^verbatim>\<open>updateHost\<close> elects the entry flagged online with the
  smallest \<^verbatim>\<open>joinedAt\<close>, whatever the order of the map.
\<close>

lemma updateHost_earliest_flagged:
  assumes "set users' = set (pm_users pm)"
    "(uid, e) \<in> set (pm_users pm)" "ud_isOnline e"
    "\<forall>(u, d) \<in> set (pm_users pm). ud_isOnline d \<longrightarrow> ud_joinedAt e \<le> ud_joinedAt d"
    "\<forall>(u, d) \<in> set (pm_users pm). \<forall>(u', d') \<in> set (pm_users pm).
        ud_isOnline d \<and> ud_isOnline d' \<and> ud_joinedAt d = ud_joinedAt d' \<longrightarrow> (u, d) = (u', d')"
  shows "pm_hostId (fst (updateHost now pm)) = Some uid
       \<and> pm_hostId (fst (updateHost now (pm\<lparr>pm_users := users'\<rparr>))) = Some uid"
proof -
  have "newHostId (pm_users pm) = Some uid"
    by (rule newHostId_earliest[OF assms(2,3,4,5)])
  moreover have "newHostId users' = Some uid"
    using newHostId_earliest[of uid e users'] assms by simp
  ultimately show ?thesis by (simp add: updateHost_hostId)
qed

lemma hostId_after_updatePresence:
  "pm_hostId (fst (updatePresence now nowW (Some entries) pm))
     = newHostId (foldl (keepAlive now) [] entries)"
  by (simp add: updatePresence_def updateHost_def Let_def)

lemma updatePresence_earliest:
  assumes "distinct (map fst entries)"
    "(uid, e) \<in> set entries" "now - lastSeenOf now e < 35000"
    "\<forall>(u, d) \<in> set entries. now - lastSeenOf now d < 35000 \<longrightarrow> pe_joinedAt e \<le> pe_joinedAt d"
    "\<forall>(u, d) \<in> set entries. \<forall>(u', d') \<in> set entries.
        now - lastSeenOf now d < 35000 \<and> now - lastSeenOf now d' < 35000
        \<and> pe_joinedAt d = pe_joinedAt d' \<longrightarrow> (u, d) = (u', d')"
  shows "pm_hostId (fst (updatePresence now nowW (Some entries) pm)) = Some uid"
proof -
  let ?us = "map (kept now) (filter (alive now) entries)"
  have us: "foldl (keepAlive now) [] entries = ?us"
    using foldl_keepAlive[OF assms(1), of "[]" now] by simp
  have mem: "(uid, withOnline e True) \<in> set ?us"
  proof -
    have "alive now (uid, e)" using assms(3) by (simp add: alive_def)
    moreover have "kept now (uid, e) = (uid, withOnline e True)"
      using assms(3) by (simp add: kept_pair)
    ultimately show ?thesis using assms(2) by force
  qed
  have on: "ud_isOnline (withOnline e True)" by (simp add: withOnline_def)
  have src: "\<exists>p. (u, p) \<in> set entries \<and> d = withOnline p (now - lastSeenOf now p < 35000)"
    if "(u, d) \<in> set ?us" for u d
    using that by (auto simp: kept_def)
  have least: "\<forall>(u, d) \<in> set ?us. ud_isOnline d \<longrightarrow>
                 ud_joinedAt (withOnline e True) \<le> ud_joinedAt d"
  proof (clarify)
    fix u d assume m: "(u, d) \<in> set ?us" and o: "ud_isOnline d"
    from src[OF m] obtain p where p: "(u, p) \<in> set entries"
      "d = withOnline p (now - lastSeenOf now p < 35000)" by blast
    with o have "now - lastSeenOf now p < 35000" by (simp add: withOnline_def)
    with assms(4) p(1) have "pe_joinedAt e \<le> pe_joinedAt p" by blast
    with p(2) show "ud_joinedAt (withOnline e True) \<le> ud_joinedAt d"
      by (simp add: withOnline_def)
  qed
  have uniq: "\<forall>(u, d) \<in> set ?us. \<forall>(u', d') \<in> set ?us.
        ud_isOnline d \<and> ud_isOnline d' \<and> ud_joinedAt d = ud_joinedAt d' \<longrightarrow> (u, d) = (u', d')"
  proof (clarify)
    fix u d u' d'
    assume m: "(u, d) \<in> set ?us" and m': "(u', d') \<in> set ?us"
      and o: "ud_isOnline d" and o': "ud_isOnline d'" and j: "ud_joinedAt d = ud_joinedAt d'"
    from src[OF m] obtain p where p: "(u, p) \<in> set entries"
      "d = withOnline p (now - lastSeenOf now p < 35000)" by blast
    from src[OF m'] obtain p' where p': "(u', p') \<in> set entries"
      "d' = withOnline p' (now - lastSeenOf now p' < 35000)" by blast
    from o p(2) have w: "now - lastSeenOf now p < 35000" by (simp add: withOnline_def)
    from o' p'(2) have w': "now - lastSeenOf now p' < 35000" by (simp add: withOnline_def)
    from j p(2) p'(2) have "pe_joinedAt p = pe_joinedAt p'" by (simp add: withOnline_def)
    with assms(5) p(1) p'(1) w w' have "(u, p) = (u', p')" by blast
    with p(2) p'(2) show "u = u' \<and> d = d'" by simp
  qed
  from newHostId_earliest[OF mem on least uniq] us show ?thesis
    by (simp add: hostId_after_updatePresence)
qed

text \<open>
  C5, as stated, fails where the online window is read off the stored \<^verbatim>\<open>lastSeen\<close>: of
  two entries with distinct \<^verbatim>\<open>joinedAt\<close>, one seen a second ago and an earlier one whose
  \<^verbatim>\<open>lastSeen\<close> is 0, only the first has \<open>now - lastSeen < 35000\<close>, and the second is
  elected, because the window is measured from \<^verbatim>\<open>lastSeen || joinedAt || now\<close>.
\<close>

theorem host_election_field_window_counterexample:
  "1700000000000 - pe_lastSeen (entry 1699999995000 1699999999000) < 35000
   \<and> \<not> 1700000000000 - pe_lastSeen (entry 1699999990000 0) < 35000
   \<and> pm_hostId (fst (updatePresence 1700000000000 1700000000001
         (Some example_ghost_snapshot) example_pm)) = Some ''ghost''"
  by (simp add: updatePresence_def keepAlive_def lastSeenOf_def js_or_def entry_def
      withOnline_def updateHost_def newHostId_def onlineUsers_def Let_def
      example_pm_def example_ghost_snapshot_def)

text \<open>
  C5, amended. Host election is deterministic. For every presence snapshot with entries
  under distinct user ids, with the online window of an entry being
  \<open>now - L < 35000\<close> for \<open>L\<close> its \<^verbatim>\<open>lastSeen\<close> when that is not 0, else its \<^verbatim>\<open>joinedAt\<close> when
  that is not 0, else now: when the entries in the online window have pairwise distinct
  \<^verbatim>\<open>joinedAt\<close>, the host that \<^verbatim>\<open>updatePresence\<close> elects through \<^verbatim>\<open>updateHost\<close> is the user
  id of the entry in the window with the smallest \<^verbatim>\<open>joinedAt\<close>, and the same id is elected
  from every other enumeration of the same entries, whatever the manager held before. For
  an entry with \<^verbatim>\<open>lastSeen\<close> other than 0, \<open>L\<close> is its \<^verbatim>\<open>lastSeen\<close>.
\<close>

theorem host_election_deterministic:
  assumes "distinct (map fst entries)" "distinct (map fst entries')" "set entries' = set entries"
    "(uid, e) \<in> set entries" "now - lastSeenOf now e < 35000"
    "\<forall>(u, d) \<in> set entries. now - lastSeenOf now d < 35000 \<longrightarrow> pe_joinedAt e \<le> pe_joinedAt d"
    "\<forall>(u, d) \<in> set entries. \<forall>(u', d') \<in> set entries.
        now - lastSeenOf now d < 35000 \<and> now - lastSeenOf now d' < 35000
        \<and> pe_joinedAt d = pe_joinedAt d' \<longrightarrow> (u, d) = (u', d')"
  shows "pm_hostId (fst (updatePresence now nowW (Some entries) pm)) = Some uid
       \<and> pm_hostId (fst (updatePresence now nowW' (Some entries') pm')) = Some uid
       \<and> (pe_lastSeen e \<noteq> 0 \<longrightarrow> lastSeenOf now e = pe_lastSeen e)"
proof (intro conjI)
  show "pm_hostId (fst (updatePresence now nowW (Some entries) pm)) = Some uid"
    by (rule updatePresence_earliest[OF assms(1,4,5,6,7)])
  show "pm_hostId (fst (updatePresence now nowW' (Some entries') pm')) = Some uid"
    using updatePresence_earliest[of entries' uid e now nowW' pm'] assms(2-7) by simp
  show "pe_lastSeen e \<noteq> 0 \<longrightarrow> lastSeenOf now e = pe_lastSeen e"
    by (simp add: lastSeenOf_def js_or_def)
qed

theorem host_election_deterministic_witness:
  "pm_hostId (fst (updatePresence 1700000000000 1700000000001 (Some example_snapshot) example_pm))
     = Some ''a''
   \<and> pm_hostId (fst (updatePresence 1700000000000 1700000000002
        (Some (rev example_snapshot)) (example_pm\<lparr>pm_hostId := None\<rparr>))) = Some ''a''"
proof -
  let ?n = "1700000000000 :: int"
  have ls: "lastSeenOf ?n (entry j s) = (if s \<noteq> 0 then s else if j \<noteq> 0 then j else ?n)" for j s
    by (simp add: lastSeenOf_def js_or_def entry_def)
  have h1: "distinct (map fst example_snapshot)" by (simp add: example_snapshot_def)
  have h2: "distinct (map fst (rev example_snapshot))" by (simp add: example_snapshot_def)
  have h3: "set (rev example_snapshot) = set example_snapshot" by simp
  have h4: "(''a'', entry 100 1699999998000) \<in> set example_snapshot"
    by (simp add: example_snapshot_def)
  have h5: "?n - lastSeenOf ?n (entry 100 1699999998000) < 35000" by (simp add: ls)
  have h6: "\<forall>(u, d) \<in> set example_snapshot. ?n - lastSeenOf ?n d < 35000 \<longrightarrow>
              pe_joinedAt (entry 100 1699999998000) \<le> pe_joinedAt d"
    by (simp add: example_snapshot_def ls) (simp add: entry_def)
  have h7: "\<forall>(u, d) \<in> set example_snapshot. \<forall>(u', d') \<in> set example_snapshot.
        ?n - lastSeenOf ?n d < 35000 \<and> ?n - lastSeenOf ?n d' < 35000
        \<and> pe_joinedAt d = pe_joinedAt d' \<longrightarrow> (u, d) = (u', d')"
    by (simp add: example_snapshot_def ls) (simp add: entry_def)
  from host_election_deterministic[OF h1 h2 h3 h4 h5 h6 h7,
      where nowW = 1700000000001 and nowW' = 1700000000002 and pm = example_pm
        and pm' = "example_pm\<lparr>pm_hostId := None\<rparr>"]
  show ?thesis by simp
qed

text \<open>
  C6, as stated, fails for an entry whose \<^verbatim>\<open>lastSeen\<close> is 0 (or absent): the windows are
  measured from \<^verbatim>\<open>lastSeen || joinedAt || now\<close>, so an entry with \<^verbatim>\<open>lastSeen\<close> 0 that
  joined a second ago is kept, is online, is counted and is elected, although
  \<open>now - lastSeen\<close> is far above 60000.
\<close>

theorem updatePresence_zero_lastSeen_counterexample:
  "1700000000000 - pe_lastSeen (entry 1699999999000 0) \<ge> 60000
   \<and> pm_users (fst (updatePresence 1700000000000 1700000000001
         (Some [(''ghost'', entry 1699999999000 0)]) example_pm))
       = [(''ghost'', withOnline (entry 1699999999000 0) True)]
   \<and> pm_hostId (fst (updatePresence 1700000000000 1700000000001
         (Some [(''ghost'', entry 1699999999000 0)]) example_pm)) = Some ''ghost''
   \<and> viewersCount (fst (updatePresence 1700000000000 1700000000001
         (Some [(''ghost'', entry 1699999999000 0)]) example_pm)) = 1"
  by (simp add: updatePresence_def keepAlive_def lastSeenOf_def js_or_def entry_def
      withOnline_def updateHost_def newHostId_def onlineUsers_def viewersCount_def Let_def
      example_pm_def)

text \<open>
  C6, amended. For every presence snapshot with entries that \<^verbatim>\<open>updatePresence\<close>
  processes, with the time since an entry was last seen measured from its \<^verbatim>\<open>lastSeen\<close>
  when that is not 0, else from its \<^verbatim>\<open>joinedAt\<close> when that is not 0, else from now: an
  entry for which that time is at least 60000 ms is not in the user map afterwards and is
  not the elected host; an entry for which it is below 60000 ms is in the map with the
  online flag set exactly when it is below 35000 ms; and the viewer count is the number of
  entries for which it is below 35000 ms. For an entry with \<^verbatim>\<open>lastSeen\<close> other than 0 the
  time is \<open>now - lastSeen\<close>.
\<close>

theorem updatePresence_windows:
  assumes "distinct (map fst entries)" "(uid, e) \<in> set entries"
  shows "(now - lastSeenOf now e \<ge> 60000 \<longrightarrow>
            map_of (pm_users (fst (updatePresence now nowW (Some entries) pm))) uid = None
            \<and> pm_hostId (fst (updatePresence now nowW (Some entries) pm)) \<noteq> Some uid)
       \<and> (now - lastSeenOf now e < 60000 \<longrightarrow>
            map_of (pm_users (fst (updatePresence now nowW (Some entries) pm))) uid
              = Some (withOnline e (now - lastSeenOf now e < 35000)))
       \<and> viewersCount (fst (updatePresence now nowW (Some entries) pm))
            = length (filter (\<lambda>(u, d). now - lastSeenOf now d < 35000) entries)
       \<and> (pe_lastSeen e \<noteq> 0 \<longrightarrow> lastSeenOf now e = pe_lastSeen e)"
proof -
  let ?pm' = "fst (updatePresence now nowW (Some entries) pm)"
  have m: "map_of (pm_users ?pm') uid
             = (if alive now (uid, e) then Some (snd (kept now (uid, e))) else None)"
    using map_of_kept[OF assms] users_after[OF assms(1)] by simp
  have h: "pm_hostId ?pm' = newHostId (pm_users ?pm')"
    by (simp add: updatePresence_def updateHost_def Let_def)
  have a: "now - lastSeenOf now e \<ge> 60000 \<longrightarrow>
            map_of (pm_users ?pm') uid = None \<and> pm_hostId ?pm' \<noteq> Some uid"
  proof
    assume "now - lastSeenOf now e \<ge> 60000"
    then have n: "map_of (pm_users ?pm') uid = None" using m by (simp add: alive_def)
    have "pm_hostId ?pm' \<noteq> Some uid"
    proof
      assume "pm_hostId ?pm' = Some uid"
      with h newHostId_online obtain d where "(uid, d) \<in> set (pm_users ?pm')" by metis
      then have "uid \<in> fst ` set (pm_users ?pm')" by force
      with n show False by (simp add: map_of_eq_None_iff)
    qed
    with n show "map_of (pm_users ?pm') uid = None \<and> pm_hostId ?pm' \<noteq> Some uid" by simp
  qed
  have b: "now - lastSeenOf now e < 60000 \<longrightarrow>
            map_of (pm_users ?pm') uid = Some (withOnline e (now - lastSeenOf now e < 35000))"
    using m by (simp add: alive_def kept_pair)
  have c: "pe_lastSeen e \<noteq> 0 \<longrightarrow> lastSeenOf now e = pe_lastSeen e"
    by (simp add: lastSeenOf_def js_or_def)
  from a b c viewersCount_after[OF assms(1)] show ?thesis by blast
qed

theorem updatePresence_windows_witness:
  "map_of (pm_users (fst (updatePresence 1700000000000 1700000000001 (Some example_snapshot) example_pm))) ''d'' = None
   \<and> pm_hostId (fst (updatePresence 1700000000000 1700000000001 (Some example_snapshot) example_pm)) \<noteq> Some ''d''
   \<and> map_of (pm_users (fst (updatePresence 1700000000000 1700000000001 (Some example_snapshot) example_pm))) ''c''
        = Some (withOnline (entry 50 1699999960000) False)
   \<and> map_of (pm_users (fst (updatePresence 1700000000000 1700000000001 (Some example_snapshot) example_pm))) ''a''
        = Some (withOnline (entry 100 1699999998000) True)
   \<and> viewersCount (fst (updatePresence 1700000000000 1700000000001 (Some example_snapshot) example_pm)) = 2"
proof -
  have d: "distinct (map fst example_snapshot)" by (simp add: example_snapshot_def)
  have ls: "lastSeenOf 1700000000000 (entry j s) = (if s \<noteq> 0 then s else if j \<noteq> 0 then j else 1700000000000)" for j s
    by (simp add: lastSeenOf_def js_or_def entry_def)
  note t = updatePresence_windows[OF d, where now = 1700000000000 and nowW = 1700000000001 and pm = example_pm]
  from t[of "''d''" "entry 10 1699999939000"] t[of "''c''" "entry 50 1699999960000"]
       t[of "''a''" "entry 100 1699999998000"]
  show ?thesis
    by (simp add: example_snapshot_def ls)
qed

text \<open>
  C10. When no entry of the user map is online, \<^verbatim>\<open>updateHost\<close> elects \<^verbatim>\<open>null\<close>; when the
  host held before was not \<^verbatim>\<open>null\<close> it calls the registered host-change callback with
  \<^verbatim>\<open>(null, previousHostId)\<close> and sends the write of \<^verbatim>\<open>hostId: null\<close> with the clock
  reading of the write as \<^verbatim>\<open>updatedAt\<close>; when it was \<^verbatim>\<open>null\<close> already nothing happens.
\<close>

theorem updateHost_nobody_online:
  assumes "\<forall>(u, d) \<in> set (pm_users pm). \<not> ud_isOnline d"
  shows "pm_hostId (fst (updateHost now pm)) = None
       \<and> (pm_hostId pm \<noteq> None \<longrightarrow>
            snd (updateHost now pm)
              = (if pm_onHostChangeCallback pm then [HostChangeCallback None (pm_hostId pm)] else [])
                @ [StoreWrite (WriteHost None now)])
       \<and> (pm_hostId pm = None \<longrightarrow> updateHost now pm = (pm, []))"
  using newHostId_None[OF assms]
  by (auto simp: updateHost_def Let_def updateRoomHost_def)

theorem updateHost_nobody_online_witness:
  "pm_hostId (fst (updateHost 1700000000001 (example_pm\<lparr>pm_users := [(''c'', withOnline (entry 50 1699999960000) False)]\<rparr>))) = None
   \<and> snd (updateHost 1700000000001 (example_pm\<lparr>pm_users := [(''c'', withOnline (entry 50 1699999960000) False)]\<rparr>))
       = [HostChangeCallback None (Some ''old''), StoreWrite (WriteHost None 1700000000001)]"
  using updateHost_nobody_online[where pm = "example_pm\<lparr>pm_users := [(''c'', withOnline (entry 50 1699999960000) False)]\<rparr>" and now = 1700000000001]
  by (simp add: example_pm_def withOnline_def)

end
